theory Spec2Isabelle
  imports Complex_Main "HOL-Library.Word"
begin

section \<open>Strings and numbers of the host language\<close>

text \<open>
  A JavaScript string is a sequence of UTF-16 code units; \<open>length\<close>, indexing and
  \<open>===\<close> all work on code units.  A JavaScript number is an IEEE double.  The
  quantities of the validation (counts of code units, counts of words and their quotients)
  are modelled by exact rationals, and the non-finite results of a division by zero are
  kept as separate values.  The accuracies of sessions are arbitrary doubles, and their sum
  and mean are computed with the rounding of double arithmetic, defined below.
\<close>

type_synonym jsstring = "16 word list"

datatype jsnum = Fin rat | PInf | NInf | NaN

fun js_div :: "rat \<Rightarrow> rat \<Rightarrow> jsnum" where
  "js_div a b =
     (if b = 0 then (if a = 0 then NaN else if 0 < a then PInf else NInf)
      else Fin (a / b))"

declare js_div.simps [simp del]

fun js_mul :: "jsnum \<Rightarrow> rat \<Rightarrow> jsnum" where
  "js_mul (Fin a) k = Fin (a * k)"
| "js_mul PInf k = (if k = 0 then NaN else if 0 < k then PInf else NInf)"
| "js_mul NInf k = (if k = 0 then NaN else if 0 < k then NInf else PInf)"
| "js_mul NaN k = NaN"

fun js_ge :: "jsnum \<Rightarrow> rat \<Rightarrow> bool" where
  "js_ge (Fin a) k = (k \<le> a)"
| "js_ge PInf k = True"
| "js_ge NInf k = False"
| "js_ge NaN k = False"

subsection \<open>Double arithmetic\<close>

text \<open>
  A finite double is a rational \<open>m * 2 ^ e\<close> with \<open>\<bar>m\<bar> < 2 ^ 53\<close> and
  \<open>- 1074 \<le> e \<le> 971\<close>; the two zeros are identified.  \<open>binade x\<close> is, for a
  positive \<open>x\<close>, the exponent \<open>e\<close> with \<open>2 ^ e \<le> x < 2 ^ (e + 1)\<close>.
  \<open>round_double\<close> rounds a rational to the nearest double, ties to the even
  significand, with gradual underflow below \<open>2 ^ - 1022\<close> and overflow to an infinity
  from \<open>2 ^ 1024 - 2 ^ 970\<close> on.  The sum and the quotient of two doubles are the exact
  results rounded in this way.
\<close>

fun ilog2 :: "nat \<Rightarrow> nat" where
  "ilog2 n = (if n < 2 then 0 else 1 + ilog2 (n div 2))"

declare ilog2.simps [simp del]

definition binade :: "rat \<Rightarrow> int" where
  "binade x =
     (if 1 \<le> x then int (ilog2 (nat \<lfloor>x\<rfloor>))
      else - int (ilog2 (nat (\<lceil>1 / x\<rceil> - 1)) + 1))"

definition round_half_even :: "rat \<Rightarrow> int" where
  "round_half_even q =
     (let f = \<lfloor>q\<rfloor>; d = q - of_int f
      in if d < 1 / 2 then f
         else if 1 / 2 < d then f + 1
         else if even f then f else f + 1)"

definition round_double :: "rat \<Rightarrow> jsnum" where
  "round_double x =
     (if x = 0 then Fin 0
      else
        let e = max (binade \<bar>x\<bar>) (- 1022);
            ulp = 2 powi (e - 52);
            y = of_int (round_half_even (\<bar>x\<bar> / ulp)) * ulp
        in if e < 1023 then Fin (sgn x * y)
           else if 2 powi 1024 \<le> y then (if 0 < x then PInf else NInf)
           else Fin (sgn x * y))"

fun double_add :: "jsnum \<Rightarrow> jsnum \<Rightarrow> jsnum" where
  "double_add (Fin a) (Fin b) = round_double (a + b)"
| "double_add NaN y = NaN"
| "double_add x NaN = NaN"
| "double_add PInf NInf = NaN"
| "double_add NInf PInf = NaN"
| "double_add PInf y = PInf"
| "double_add x PInf = PInf"
| "double_add NInf y = NInf"
| "double_add x NInf = NInf"

text \<open>Division of a double by a count (a non-negative integer, so a zero divisor is +0).\<close>

fun double_div :: "jsnum \<Rightarrow> rat \<Rightarrow> jsnum" where
  "double_div (Fin a) b =
     (if b = 0 then (if a = 0 then NaN else if 0 < a then PInf else NInf)
      else round_double (a / b))"
| "double_div PInf b = PInf"
| "double_div NInf b = NInf"
| "double_div NaN b = NaN"

text \<open>
  \<open>Math.round\<close>: the nearest integer, halves rounded up; a number that is not finite is
  returned as it is.
\<close>

fun math_round :: "jsnum \<Rightarrow> jsnum" where
  "math_round (Fin x) = Fin (of_int \<lfloor>x + 1 / 2\<rfloor>)"
| "math_round PInf = PInf"
| "math_round NInf = NInf"
| "math_round NaN = NaN"

section \<open>QuranDatabase: diacritics and word similarity\<close>

text \<open>The eighteen code units listed in \<open>removeDiacritics\<close>, in source order.\<close>

definition diacritics :: "16 word list" where
  "diacritics =
     [0x64E, 0x64F, 0x650, 0x64B, 0x64C, 0x64D, 0x652, 0x651, 0x670,
      0x656, 0x657, 0x659, 0x65A, 0x65B, 0x65C, 0x65D, 0x65E, 0x65F]"

text \<open>
  \<open>result.replace(new RegExp(d, 'g'), '')\<close> for a pattern \<open>d\<close> that is one literal code
  unit: every occurrence of \<open>d\<close> is deleted.
\<close>

definition replace_all :: "16 word \<Rightarrow> jsstring \<Rightarrow> jsstring" where
  "replace_all d result = filter (\<lambda>c. c \<noteq> d) result"

definition removeDiacritics :: "jsstring \<Rightarrow> jsstring" where
  "removeDiacritics text = foldl (\<lambda>result d. replace_all d result) text diacritics"

text \<open>The counting loop \<open>for (let i = 0; i < minLen; i++)\<close> of \<open>calculateSimilarity\<close>.\<close>

function count_matches :: "jsstring \<Rightarrow> jsstring \<Rightarrow> nat \<Rightarrow> nat \<Rightarrow> nat \<Rightarrow> nat" where
  "count_matches clean1 clean2 minLen i matches =
     (if i < minLen
      then count_matches clean1 clean2 minLen (i + 1)
             (if clean1 ! i = clean2 ! i then matches + 1 else matches)
      else matches)"
  by pat_completeness auto
termination
  by (relation "measure (\<lambda>(clean1, clean2, minLen, i, matches). minLen - i)") auto

declare count_matches.simps [simp del]

definition calculateSimilarity :: "jsstring \<Rightarrow> jsstring \<Rightarrow> rat" where
  "calculateSimilarity word1 word2 =
     (if word1 = word2 then 1
      else
        let clean1 = removeDiacritics word1;
            clean2 = removeDiacritics word2
        in if clean1 = clean2 then 9 / 10
           else
             let maxLen = max (length clean1) (length clean2)
             in if maxLen = 0 then 0
                else
                  let minLen = min (length clean1) (length clean2);
                      matches = count_matches clean1 clean2 minLen 0 0
                  in of_nat matches / of_nat maxLen)"


section \<open>QuranDatabase: the verse corpus\<close>

record VerseInfo =
  textArabic :: jsstring
  textTransliteration :: jsstring
  textEnglish :: jsstring
  words :: "jsstring list"
  wordCount :: int

text \<open>
  Decimal rendering of an integer number, as the template literal
  \<open>`${surahNumber}:${verseNumber}`\<close> produces it for integer arguments.
\<close>

fun digits_of :: "nat \<Rightarrow> jsstring" where
  "digits_of n =
     (if n < 10 then [of_nat (48 + n)]
      else digits_of (n div 10) @ [of_nat (48 + n mod 10)])"

declare digits_of.simps [simp del]

definition number_to_string :: "int \<Rightarrow> jsstring" where
  "number_to_string i =
     (if i < 0 then 0x2D # digits_of (nat (- i)) else digits_of (nat i))"

definition verse_key :: "int \<Rightarrow> int \<Rightarrow> jsstring" where
  "verse_key surahNumber verseNumber =
     number_to_string surahNumber @ [0x3A] @ number_to_string verseNumber"

text \<open>
  \<open>this.verses\<close> is a \<open>Map\<close> from key strings to verses; it is a parameter of every
  operation that reads it.  A stored verse is an object, hence truthy, so
  \<open>this.verses.get(key) || null\<close> is \<open>null\<close> exactly when the key is absent.
\<close>

definition getVerse :: "(jsstring \<rightharpoonup> VerseInfo) \<Rightarrow> int \<Rightarrow> int \<Rightarrow> VerseInfo option" where
  "getVerse verses surahNumber verseNumber = verses (verse_key surahNumber verseNumber)"

section \<open>QuranDatabase: validating a recitation\<close>

datatype MistakeType = pronunciation | omission | addition

datatype Severity = low | medium | high

record MistakeInfo =
  mistake_type :: MistakeType
  expected :: "jsstring option"
  recited :: "jsstring option"
  position :: nat
  severity :: Severity

record ValidationResult =
  isValid :: bool
  accuracy :: jsnum
  mistakes :: "MistakeInfo list"
  missingWords :: "jsstring list"
  extraWords :: "jsstring list"

text \<open>The code units matched by \<open>\s\<close>: white space and line terminators.\<close>

definition is_space :: "16 word \<Rightarrow> bool" where
  "is_space c =
     (c = 0x9 \<or> c = 0xA \<or> c = 0xB \<or> c = 0xC \<or> c = 0xD \<or> c = 0x20 \<or> c = 0xA0
      \<or> c = 0x1680 \<or> (0x2000 \<le> c \<and> c \<le> 0x200A) \<or> c = 0x2028 \<or> c = 0x2029
      \<or> c = 0x202F \<or> c = 0x205F \<or> c = 0x3000 \<or> c = 0xFEFF)"

text \<open>
  \<open>text.split(/\s+/)\<close>: the pieces between maximal runs of white space, empty pieces at
  the ends included (\<open>"".split(/\s+/)\<close> is \<open>[""]\<close>).
\<close>

function split_spaces :: "jsstring \<Rightarrow> jsstring list" where
  "split_spaces text =
     (let piece = takeWhile (\<lambda>c. \<not> is_space c) text;
          rest = dropWhile (\<lambda>c. \<not> is_space c) text
      in if rest = [] then [piece]
         else piece # split_spaces (dropWhile is_space rest))"
  by pat_completeness auto
termination
proof (relation "measure length")
  show "wf (measure length)" by simp
next
  fix inp :: jsstring and x xa
  assume eq: "xa = dropWhile (\<lambda>c. \<not> is_space c) inp" and ne: "xa \<noteq> []"
  have "length (dropWhile is_space xa) < length xa"
  proof (cases xa)
    case Nil
    with ne show ?thesis by simp
  next
    case (Cons c cs)
    with eq have "dropWhile (\<lambda>c. \<not> is_space c) inp = c # cs" by simp
    then have "is_space c" by (simp add: dropWhile_eq_Cons_conv)
    with Cons show ?thesis
      by (simp add: le_imp_less_Suc length_dropWhile_le)
  qed
  also have "length xa \<le> length inp"
    unfolding eq by (rule length_dropWhile_le)
  finally show "(dropWhile is_space xa, inp) \<in> measure length" by simp
qed

declare split_spaces.simps [simp del]

definition tokenize :: "jsstring \<Rightarrow> jsstring list" where
  "tokenize recitedText = filter (\<lambda>word. length word > 0) (split_spaces recitedText)"

text \<open>
  The body of \<open>expectedWords.forEach((expectedWord, index) => ...)\<close>; the state is the
  pair of the arrays \<open>mistakes\<close> and \<open>missingWords\<close>, both appended to.
\<close>

fun check_words ::
  "jsstring list \<Rightarrow> jsstring list \<Rightarrow> nat \<Rightarrow> MistakeInfo list \<times> jsstring list
     \<Rightarrow> MistakeInfo list \<times> jsstring list" where
  "check_words [] recitedWords index (ms, missing) = (ms, missing)"
| "check_words (expectedWord # rest) recitedWords index (ms, missing) =
     (if index \<ge> length recitedWords
      then check_words rest recitedWords (index + 1)
             (ms @ [\<lparr>mistake_type = omission, expected = Some expectedWord,
                            recited = None, position = index, severity = high\<rparr>],
              missing @ [expectedWord])
      else
        let recitedWord = recitedWords ! index;
            similarity = calculateSimilarity expectedWord recitedWord
        in if similarity < 7 / 10
           then check_words rest recitedWords (index + 1)
                  (ms @ [\<lparr>mistake_type = pronunciation, expected = Some expectedWord,
                                 recited = Some recitedWord, position = index,
                                 severity = (if similarity < 3 / 10 then high else medium)\<rparr>],
                   missing)
           else check_words rest recitedWords (index + 1) (ms, missing))"

definition correctWords :: "jsstring list \<Rightarrow> jsstring list \<Rightarrow> MistakeInfo list \<Rightarrow> int" where
  "correctWords expectedWords missing ms =
     int (length expectedWords) - int (length missing)
       - int (length (filter (\<lambda>m. mistake_type m = pronunciation) ms))"

definition validateRecitation ::
  "(jsstring \<rightharpoonup> VerseInfo) \<Rightarrow> int \<Rightarrow> int \<Rightarrow> jsstring \<Rightarrow> ValidationResult" where
  "validateRecitation verses surahNumber verseNumber recitedText =
     (case getVerse verses surahNumber verseNumber of
        None \<Rightarrow>
          \<lparr>isValid = False, accuracy = Fin 0, mistakes = [], missingWords = [],
           extraWords = []\<rparr>
      | Some expectedVerse \<Rightarrow>
          let expectedWords = words expectedVerse;
              recitedWords = tokenize recitedText;
              (mistakes1, missingWords1) = check_words expectedWords recitedWords 0 ([], []);
              (extraWords1, mistakes2) =
                (if length recitedWords > length expectedWords
                 then (drop (length expectedWords) recitedWords,
                       mistakes1 @ [\<lparr>mistake_type = addition, expected = None, recited = None,
                                      position = length expectedWords, severity = medium\<rparr>])
                 else ([], mistakes1));
              accuracy1 =
                js_mul (js_div (of_int (correctWords expectedWords missingWords1 mistakes2))
                               (of_nat (length expectedWords))) 100
          in \<lparr>isValid = js_ge accuracy1 70, accuracy = accuracy1, mistakes = mistakes2,
              missingWords = missingWords1, extraWords = extraWords1\<rparr>)"


section \<open>BikeModeContext: sessions and the session history\<close>

text \<open>
  A \<open>Date\<close> is its \<open>getTime()\<close> value, milliseconds since the epoch.  The optional
  \<open>endTime\<close> is \<open>None\<close> when the property is undefined.
\<close>

record BikeModeSession =
  session_id :: jsstring
  startTime :: int
  endTime :: "int option"
  versesRecited :: int
  pausesDetected :: int
  mistakesDetected :: int
  totalDuration :: int
  averageAccuracy :: jsnum
  surahsCompleted :: "int list"

record BikeModeState =
  currentSession :: "BikeModeSession option"
  sessionHistory :: "BikeModeSession list"

text \<open>
  \<open>startSession\<close> reads the clock twice, \<open>Date.now()\<close> for the id and \<open>new Date()\<close>
  for \<open>startTime\<close>; \<open>endSession\<close> reads \<open>new Date()\<close> for \<open>endTime\<close> and
  \<open>Date.now()\<close> for the duration of a session that has no \<open>endTime\<close> yet.  The
  readings are arguments.  \<open>slice(0, 50)\<close> keeps the first fifty elements.
\<close>

definition newSession :: "int \<Rightarrow> int \<Rightarrow> BikeModeSession" where
  "newSession dateNow newDate =
     \<lparr>session_id = number_to_string dateNow, startTime = newDate, endTime = None,
      versesRecited = 0, pausesDetected = 0, mistakesDetected = 0, totalDuration = 0,
      averageAccuracy = Fin 0, surahsCompleted = []\<rparr>"

definition startSession :: "int \<Rightarrow> int \<Rightarrow> BikeModeState \<Rightarrow> BikeModeState" where
  "startSession dateNow newDate st = st\<lparr>currentSession := Some (newSession dateNow newDate)\<rparr>"

definition endedSession :: "int \<Rightarrow> int \<Rightarrow> BikeModeSession \<Rightarrow> BikeModeSession" where
  "endedSession newDate dateNow cs =
     cs\<lparr>endTime := Some newDate,
        totalDuration :=
          (case endTime cs of
             Some e \<Rightarrow> e - startTime cs
           | None \<Rightarrow> dateNow - startTime cs)\<rparr>"

definition endSession :: "int \<Rightarrow> int \<Rightarrow> BikeModeState \<Rightarrow> BikeModeState" where
  "endSession newDate dateNow st =
     (case currentSession st of
        None \<Rightarrow> st
      | Some cs \<Rightarrow>
          let updatedHistory = take 50 (endedSession newDate dateNow cs # sessionHistory st)
          in st\<lparr>sessionHistory := updatedHistory, currentSession := None\<rparr>)"

section \<open>ProgressScreen: statistics over the session history\<close>

datatype Period = week | month | all_time

record Stats =
  totalSessions :: nat
  totalTime :: int
  totalVerses :: int
  stats_averageAccuracy :: jsnum
  totalMistakes :: int
  totalPauses :: int
  streakDays :: nat

definition getFilteredSessions :: "int \<Rightarrow> Period \<Rightarrow> BikeModeSession list \<Rightarrow> BikeModeSession list" where
  "getFilteredSessions now selectedPeriod history =
     filter (\<lambda>session.
        if selectedPeriod = all_time then True
        else
          let sessionDate = startTime session;
              daysDiff = (of_int (now - sessionDate) :: rat) / (1000 * 60 * 60 * 24)
          in if selectedPeriod = week then daysDiff \<le> 7
             else if selectedPeriod = month then daysDiff \<le> 30
             else True) history"

subsection \<open>Dates in local time\<close>

text \<open>
  Local time follows the ECMAScript specification: \<open>LocalTime(t) = t + LocalTZA(t, true)\<close>
  and \<open>UTC(t) = t - LocalTZA(t, false)\<close>, where \<open>LocalTZA\<close>, the offset of the host's
  time zone in milliseconds at a UTC instant (\<open>true\<close>) or at a local time value
  (\<open>false\<close>), is a parameter.  \<open>setHours(0, 0, 0, 0)\<close> sets the time value to
  \<open>UTC(MakeDate(Day(LocalTime(t)), 0))\<close>, and \<open>setDate(getDate() - 1)\<close> sets it to
  \<open>UTC(MakeDate(Day(LocalTime(t)) - 1, TimeWithinDay(LocalTime(t))))\<close>, which is
  \<open>UTC(LocalTime(t) - msPerDay)\<close>.
\<close>

type_synonym timezone = "int \<Rightarrow> bool \<Rightarrow> int"

definition msPerDay :: int where
  "msPerDay = 86400000"

definition LocalTime :: "timezone \<Rightarrow> int \<Rightarrow> int" where
  "LocalTime LocalTZA t = t + LocalTZA t True"

definition UTC :: "timezone \<Rightarrow> int \<Rightarrow> int" where
  "UTC LocalTZA t = t - LocalTZA t False"

definition setHours0 :: "timezone \<Rightarrow> int \<Rightarrow> int" where
  "setHours0 LocalTZA t = UTC LocalTZA ((LocalTime LocalTZA t div msPerDay) * msPerDay)"

definition setDatePrev :: "timezone \<Rightarrow> int \<Rightarrow> int" where
  "setDatePrev LocalTZA t = UTC LocalTZA (LocalTime LocalTZA t - msPerDay)"

text \<open>
  The loop \<open>for (const session of sortedSessions)\<close>; the state is \<open>streakDays\<close> and
  the time value of \<open>currentDate\<close>.
\<close>

fun streak_loop :: "timezone \<Rightarrow> BikeModeSession list \<Rightarrow> nat \<Rightarrow> int \<Rightarrow> nat" where
  "streak_loop LocalTZA [] streak currentDate = streak"
| "streak_loop LocalTZA (session # rest) streak currentDate =
     (let sessionDate = setHours0 LocalTZA (startTime session)
      in if sessionDate = currentDate
         then streak_loop LocalTZA rest (streak + 1) (setDatePrev LocalTZA currentDate)
         else if sessionDate < currentDate then streak
         else streak_loop LocalTZA rest streak currentDate)"

text \<open>
  \<open>sessions.sort((a, b) => b.startTime.getTime() - a.startTime.getTime())\<close>: a stable
  sort, latest start first.
\<close>

definition sortedSessions :: "BikeModeSession list \<Rightarrow> BikeModeSession list" where
  "sortedSessions sessions = sort_key (\<lambda>s. - startTime s) sessions"

text \<open>
  \<open>getStats\<close> reads the clock in \<open>getFilteredSessions\<close> (\<open>now\<close>) and again for the
  streak (\<open>today\<close>).  The counters of a session are integers and are summed as such; the
  accuracies are summed and divided as doubles.
\<close>

definition getStats ::
  "timezone \<Rightarrow> int \<Rightarrow> int \<Rightarrow> Period \<Rightarrow> BikeModeSession list \<Rightarrow> Stats" where
  "getStats LocalTZA now today selectedPeriod history =
     (let sessions = getFilteredSessions now selectedPeriod history
      in if length sessions = 0
         then \<lparr>totalSessions = 0, totalTime = 0, totalVerses = 0,
               stats_averageAccuracy = Fin 0, totalMistakes = 0, totalPauses = 0,
               streakDays = 0\<rparr>
         else
           let totalTime1 = foldl (\<lambda>sum session. sum + totalDuration session) 0 sessions;
               totalVerses1 = foldl (\<lambda>sum session. sum + versesRecited session) 0 sessions;
               totalMistakes1 = foldl (\<lambda>sum session. sum + mistakesDetected session) 0 sessions;
               totalPauses1 = foldl (\<lambda>sum session. sum + pausesDetected session) 0 sessions;
               averageAccuracy1 =
                 double_div
                   (foldl (\<lambda>sum session. double_add sum (averageAccuracy session)) (Fin 0)
                      sessions)
                   (of_nat (length sessions));
               streakDays1 =
                 streak_loop LocalTZA (sortedSessions sessions) 0 (setHours0 LocalTZA today)
           in \<lparr>totalSessions = length sessions, totalTime = totalTime1,
               totalVerses = totalVerses1,
               stats_averageAccuracy = math_round averageAccuracy1,
               totalMistakes = totalMistakes1, totalPauses = totalPauses1,
               streakDays = streakDays1\<rparr>)"

section \<open>Reference notions used to state the properties\<close>

text \<open>
  The edit distance with unit cost for insertion, deletion and substitution and no
  transposition, by its standard recurrence.
\<close>

fun levenshtein :: "'a list \<Rightarrow> 'a list \<Rightarrow> nat" where
  "levenshtein [] ys = length ys"
| "levenshtein xs [] = length xs"
| "levenshtein (x # xs) (y # ys) =
     min (min (levenshtein xs (y # ys) + 1) (levenshtein (x # xs) ys + 1))
         (levenshtein xs ys + (if x = y then 0 else 1))"

text \<open>The number of indices at which two strings carry the same code unit.\<close>

definition aligned_matches :: "'a list \<Rightarrow> 'a list \<Rightarrow> nat" where
  "aligned_matches xs ys = length (filter (\<lambda>(x, y). x = y) (zip xs ys))"

text \<open>
  The distance that compares index by index: the indices at which both strings have a code
  unit and the two differ, plus the difference of the lengths.
\<close>

definition positional_distance :: "'a list \<Rightarrow> 'a list \<Rightarrow> nat" where
  "positional_distance xs ys =
     length (filter (\<lambda>(x, y). x \<noteq> y) (zip xs ys))
     + (max (length xs) (length ys) - min (length xs) (length ys))"

text \<open>
  What the word loop records about one canonical word, given the number of recited words:
  an omission sits at or beyond that number and is severe, a mispronunciation sits below it,
  and the loop never records an addition.
\<close>

definition mistake_ok :: "nat \<Rightarrow> MistakeInfo \<Rightarrow> bool" where
  "mistake_ok n m =
     (case mistake_type m of
        omission \<Rightarrow> n \<le> position m \<and> severity m = high
      | pronunciation \<Rightarrow> position m < n
      | addition \<Rightarrow> False)"

definition addition_mistake :: "nat \<Rightarrow> MistakeInfo" where
  "addition_mistake n =
     \<lparr>mistake_type = addition, expected = None, recited = None, position = n,
      severity = medium\<rparr>"

text \<open>
  The entry \<open>'1:3'\<close> of the default data of \<open>createDefaultData\<close>, and a corpus holding
  that entry only.
\<close>

definition verse_1_3 :: VerseInfo where
  "verse_1_3 =
     \<lparr>textArabic =
        [0x627, 0x644, 0x631, 0x64E, 0x651, 0x62D, 0x652, 0x645, 0x64E, 0x670, 0x646, 0x650,
         0x20, 0x627, 0x644, 0x631, 0x64E, 0x651, 0x62D, 0x650, 0x64A, 0x645, 0x650],
      textTransliteration =
        [0x41, 0x72, 0x2D, 0x52, 0x61, 0x68, 0x6D, 0x61, 0x6E, 0x20, 0x61, 0x72, 0x2D, 0x52,
         0x61, 0x68, 0x65, 0x65, 0x6D],
      textEnglish =
        [0x54, 0x68, 0x65, 0x20, 0x45, 0x6E, 0x74, 0x69, 0x72, 0x65, 0x6C, 0x79, 0x20, 0x4D,
         0x65, 0x72, 0x63, 0x69, 0x66, 0x75, 0x6C, 0x2C, 0x20, 0x74, 0x68, 0x65, 0x20, 0x45,
         0x73, 0x70, 0x65, 0x63, 0x69, 0x61, 0x6C, 0x6C, 0x79, 0x20, 0x4D, 0x65, 0x72, 0x63,
         0x69, 0x66, 0x75, 0x6C, 0x2E],
      words =
        [[0x627, 0x644, 0x631, 0x64E, 0x651, 0x62D, 0x652, 0x645, 0x64E, 0x670, 0x646, 0x650],
         [0x627, 0x644, 0x631, 0x64E, 0x651, 0x62D, 0x650, 0x64A, 0x645, 0x650]],
      wordCount = 2\<rparr>"

definition corpus_1_3 :: "jsstring \<rightharpoonup> VerseInfo" where
  "corpus_1_3 = [verse_key 1 3 \<mapsto> verse_1_3]"

text \<open>The unweighted arithmetic mean of a list of numbers.\<close>

definition mean :: "rat list \<Rightarrow> rat" where
  "mean rs = sum_list rs / of_nat (length rs)"

text \<open>
  The mean as double arithmetic computes it: the numbers are added from 0, left to right,
  every sum rounded, and the last sum is divided by the count and rounded.
\<close>

definition double_mean :: "jsnum list \<Rightarrow> jsnum" where
  "double_mean xs = double_div (foldl double_add (Fin 0) xs) (of_nat (length xs))"

text \<open>Every partial sum \<open>s + r\<^sub>1 + \<dots> + r\<^sub>k\<close> is a double.\<close>

fun sums_exact :: "rat \<Rightarrow> rat list \<Rightarrow> bool" where
  "sums_exact s [] = True"
| "sums_exact s (r # rs) = (round_double (s + r) = Fin (s + r) \<and> sums_exact (s + r) rs)"

text \<open>The local calendar day of an instant, and the days on which sessions started.\<close>

definition local_day :: "timezone \<Rightarrow> int \<Rightarrow> int" where
  "local_day LocalTZA t = LocalTime LocalTZA t div msPerDay"

definition session_days :: "timezone \<Rightarrow> BikeModeSession list \<Rightarrow> int set" where
  "session_days LocalTZA sessions = local_day LocalTZA ` startTime ` set sessions"

text \<open>
  The offsets of the zone Africa/Cairo around its transition to summer time in 2024: on
  2024-04-26 the clocks went from 00:00 (UTC+2) to 01:00 (UTC+3), at the instant
  1714082400000 (2024-04-25T22:00:00Z).  A local time in the skipped hour is interpreted
  with the offset before the transition.
\<close>

definition cairo_2024 :: timezone where
  "cairo_2024 t isUTC =
     (if isUTC then (if 1714082400000 \<le> t then 10800000 else 7200000)
      else (if 1714082400000 + 10800000 \<le> t then 10800000 else 7200000))"

section \<open>Properties of the normalization and of the similarity\<close>

lemma removeDiacritics_filter:
  "removeDiacritics text = filter (\<lambda>c. c \<notin> set diacritics) text"
  unfolding removeDiacritics_def diacritics_def replace_all_def
  by (simp add: conj_commute conj_left_commute)

lemma count_matches_filter:
  "count_matches c1 c2 n i m = m + length (filter (\<lambda>j. c1 ! j = c2 ! j) [i..<n])"
proof (induction c1 c2 n i m rule: count_matches.induct)
  case (1 c1 c2 n i m)
  show ?case
  proof (cases "i < n")
    case True
    then have "[i..<n] = i # [Suc i..<n]" by (simp add: upt_conv_Cons)
    with True 1 show ?thesis by (simp add: count_matches.simps [of c1 c2 n i m])
  next
    case False
    then show ?thesis by (simp add: count_matches.simps [of c1 c2 n i m])
  qed
qed

lemma zip_nth_upt:
  "zip xs ys = map (\<lambda>j. (xs ! j, ys ! j)) [0..<min (length xs) (length ys)]"
  by (rule nth_equalityI) simp_all

lemma count_matches_aligned:
  "count_matches c1 c2 (min (length c1) (length c2)) 0 0 = aligned_matches c1 c2"
  unfolding aligned_matches_def count_matches_filter
  by (subst zip_nth_upt) (simp add: filter_map comp_def)

lemma aligned_split:
  "aligned_matches xs ys + length (filter (\<lambda>(x, y). x \<noteq> y) (zip xs ys))
     = min (length xs) (length ys)"
proof -
  have "length (filter (\<lambda>(x, y). x = y) (zip xs ys))
          + length (filter (\<lambda>p. \<not> (case p of (x, y) \<Rightarrow> x = y)) (zip xs ys))
        = length (zip xs ys)"
    by (rule sum_length_filter_compl)
  moreover have "(\<lambda>p. \<not> (case p of (x, y) \<Rightarrow> x = y)) = (\<lambda>(x::'a, y). x \<noteq> y)"
    by auto
  ultimately show ?thesis by (simp add: aligned_matches_def)
qed

lemma aligned_plus_distance:
  "aligned_matches xs ys + positional_distance xs ys = max (length xs) (length ys)"
  using aligned_split [of xs ys] unfolding positional_distance_def by linarith

text \<open>
  What the loop of \<open>calculateSimilarity\<close> computes.  For strings \<open>a\<close>, \<open>b\<close> that are not
  equal and whose normalized forms \<open>a'\<close>, \<open>b'\<close> are not equal, the result is the number of
  indices at which \<open>a'\<close> and \<open>b'\<close> carry the same code unit, divided by
  \<open>max (length a') (length b')\<close>; equivalently \<open>1 - d / max (length a') (length b')\<close>
  where \<open>d\<close> is the index-by-index distance.
\<close>

lemma calculateSimilarity_positional:
  assumes "a \<noteq> b" and "removeDiacritics a \<noteq> removeDiacritics b"
  shows "calculateSimilarity a b =
           of_nat (aligned_matches (removeDiacritics a) (removeDiacritics b))
             / of_nat (max (length (removeDiacritics a)) (length (removeDiacritics b)))
       \<and> calculateSimilarity a b =
           1 - of_nat (positional_distance (removeDiacritics a) (removeDiacritics b))
             / of_nat (max (length (removeDiacritics a)) (length (removeDiacritics b)))"
proof -
  let ?a = "removeDiacritics a" and ?b = "removeDiacritics b"
  let ?M = "max (length ?a) (length ?b)"
  from assms(2) have "?a \<noteq> [] \<or> ?b \<noteq> []" by auto
  then have M: "?M \<noteq> 0" by auto
  have sim: "calculateSimilarity a b = of_nat (aligned_matches ?a ?b) / of_nat ?M"
    using assms M
    by (simp add: calculateSimilarity_def Let_def count_matches_aligned del: max_0L max_0R)
  have "(of_nat (aligned_matches ?a ?b) :: rat) + of_nat (positional_distance ?a ?b)
          = of_nat ?M"
    using aligned_plus_distance [of ?a ?b] by (metis of_nat_add)
  then have "(of_nat (aligned_matches ?a ?b) :: rat)
               = of_nat ?M - of_nat (positional_distance ?a ?b)"
    by linarith
  then have "(of_nat (aligned_matches ?a ?b) :: rat) / of_nat ?M
           = 1 - of_nat (positional_distance ?a ?b) / of_nat ?M"
    using M by (simp add: diff_divide_distrib)
  with sim show ?thesis by simp
qed

text \<open>
  C1.  The claim: for strings \<open>a\<close>, \<open>b\<close> that are not equal and whose normalized forms
  \<open>a'\<close>, \<open>b'\<close> are not equal, the similarity is \<open>1 - d / max (length a') (length b')\<close>
  with \<open>d\<close> the Levenshtein distance of \<open>a'\<close> and \<open>b'\<close>.  The function
  \<open>calculateSimilarity\<close> of \<open>utils/constants.ts\<close> computes this formula; the private copy
  in \<open>QuranDatabase\<close> does not.  For the words "ab" and "b" the Levenshtein distance is 1
  (one deletion) and the claimed similarity is 1/2, while the copy finds no index at which
  the words agree and returns 0.
\<close>

theorem calculateSimilarity_not_levenshtein:
  "[0x61, 0x62] \<noteq> [0x62 :: 16 word]
   \<and> removeDiacritics [0x61, 0x62] \<noteq> removeDiacritics [0x62]
   \<and> calculateSimilarity [0x61, 0x62] [0x62] = 0
   \<and> 1 - of_nat (levenshtein (removeDiacritics [0x61, 0x62]) (removeDiacritics [0x62]))
           / of_nat (max (length (removeDiacritics [0x61, 0x62]))
                         (length (removeDiacritics [0x62])))
       = (1 / 2 :: rat)"
  by (simp add: calculateSimilarity_def removeDiacritics_filter diacritics_def
      count_matches.simps)

text \<open>
  C2 (as amended).  For strings \<open>a\<close>, \<open>b\<close> whose normalized forms are both empty,
  \<open>calculateSimilarity a b\<close> is 1 when \<open>a = b\<close> and 0.9 otherwise: the two equality
  tests come before the test for length zero.
\<close>

theorem calculateSimilarity_empty_normalized:
  assumes "removeDiacritics a = []" and "removeDiacritics b = []"
  shows "calculateSimilarity a b = (if a = b then 1 else 9 / 10)"
  using assms by (simp add: calculateSimilarity_def)

text \<open>A lone fatha against the empty string.\<close>

theorem calculateSimilarity_empty_normalized_witness:
  "removeDiacritics [0x64E] = [] \<and> removeDiacritics [] = []
   \<and> calculateSimilarity [0x64E] [] = 9 / 10"
  using calculateSimilarity_empty_normalized [of "[0x64E]" "[]"]
  by (simp add: removeDiacritics_filter diacritics_def)

text \<open>
  A lone fatha against a lone kasra: both normalized forms are empty and the similarity is
  0.9, not 0.
\<close>

theorem calculateSimilarity_empty_counterexample:
  "removeDiacritics [0x64E] = [] \<and> removeDiacritics [0x650] = []
   \<and> calculateSimilarity [0x64E] [0x650] \<noteq> 0"
  by (simp add: calculateSimilarity_def removeDiacritics_filter diacritics_def)

text \<open>
  C9.  \<open>removeDiacritics\<close> is idempotent, because its output contains none of the code
  units it removes.
\<close>

theorem removeDiacritics_idempotent:
  "removeDiacritics (removeDiacritics x) = removeDiacritics x
   \<and> set (removeDiacritics x) \<inter> set diacritics = {}"
  by (auto simp add: removeDiacritics_filter)

text \<open>The word of verse 1:1 spelled ba, kasra, sin, sukun, mim, kasra.\<close>

theorem removeDiacritics_idempotent_witness:
  "removeDiacritics (removeDiacritics [0x628, 0x650, 0x633, 0x652, 0x645, 0x650])
     = [0x628, 0x633, 0x645]"
  using removeDiacritics_idempotent [of "[0x628, 0x650, 0x633, 0x652, 0x645, 0x650]"]
  by (simp add: removeDiacritics_filter diacritics_def)

section \<open>Properties of the validation of a recitation\<close>

lemma check_words_positions:
  assumes "check_words ews rws i (ms, miss) = (ms', miss')"
    and "sorted_wrt (<) (map position ms)"
    and "\<forall>m\<in>set ms. position m < i"
  shows "sorted_wrt (<) (map position ms') \<and> (\<forall>m\<in>set ms'. position m < i + length ews)"
  using assms
proof (induction ews arbitrary: i ms miss)
  case Nil
  then show ?case by simp
next
  case (Cons ew rest)
  let ?om = "\<lparr>mistake_type = omission, expected = Some ew, recited = None,
              position = i, severity = high\<rparr>"
  let ?sim = "calculateSimilarity ew (rws ! i)"
  let ?pr = "\<lparr>mistake_type = pronunciation, expected = Some ew, recited = Some (rws ! i),
              position = i, severity = (if ?sim < 3 / 10 then high else medium)\<rparr>"
  have step: "sorted_wrt (<) (map position (ms @ [m])) \<and> (\<forall>x\<in>set (ms @ [m]). position x < i + 1)"
    if "position m = i" for m
    using Cons.prems(2,3) that by (auto simp add: sorted_wrt_append)
  have keep: "\<forall>m\<in>set ms. position m < i + 1"
    using Cons.prems(3) by auto
  consider (om) "length rws \<le> i"
    | (pr) "i < length rws" "?sim < 7 / 10"
    | (ok) "i < length rws" "\<not> ?sim < 7 / 10"
    by linarith
  then have "sorted_wrt (<) (map position ms') \<and> (\<forall>m\<in>set ms'. position m < (i + 1) + length rest)"
  proof cases
    case om
    with Cons.prems(1) have "check_words rest rws (i + 1) (ms @ [?om], miss @ [ew]) = (ms', miss')"
      by simp
    then show ?thesis
      using step [of ?om] by (intro Cons.IH [of "i + 1" "ms @ [?om]" "miss @ [ew]"]) simp_all
  next
    case pr
    with Cons.prems(1) have "check_words rest rws (i + 1) (ms @ [?pr], miss) = (ms', miss')"
      by (simp add: Let_def)
    then show ?thesis
      using step [of ?pr] by (intro Cons.IH [of "i + 1" "ms @ [?pr]" miss]) simp_all
  next
    case ok
    with Cons.prems(1) have "check_words rest rws (i + 1) (ms, miss) = (ms', miss')"
      by (simp add: Let_def)
    then show ?thesis
      using Cons.prems(2) keep by (intro Cons.IH [of "i + 1" ms miss]) simp_all
  qed
  then show ?case by simp
qed

lemma check_words_kinds:
  assumes "check_words ews rws i (ms, miss) = (ms', miss')"
    and "\<forall>m\<in>set ms. mistake_ok (length rws) m"
  shows "\<forall>m\<in>set ms'. mistake_ok (length rws) m"
  using assms
proof (induction ews arbitrary: i ms miss)
  case Nil
  then show ?case by simp
next
  case (Cons ew rest)
  let ?om = "\<lparr>mistake_type = omission, expected = Some ew, recited = None,
              position = i, severity = high\<rparr>"
  let ?sim = "calculateSimilarity ew (rws ! i)"
  let ?pr = "\<lparr>mistake_type = pronunciation, expected = Some ew, recited = Some (rws ! i),
              position = i, severity = (if ?sim < 3 / 10 then high else medium)\<rparr>"
  consider (om) "length rws \<le> i"
    | (pr) "i < length rws" "?sim < 7 / 10"
    | (ok) "i < length rws" "\<not> ?sim < 7 / 10"
    by linarith
  then show ?case
  proof cases
    case om
    with Cons.prems(1) have "check_words rest rws (i + 1) (ms @ [?om], miss @ [ew]) = (ms', miss')"
      by simp
    moreover from om Cons.prems(2) have "\<forall>m\<in>set (ms @ [?om]). mistake_ok (length rws) m"
      by (simp add: mistake_ok_def)
    ultimately show ?thesis by (rule Cons.IH)
  next
    case pr
    with Cons.prems(1) have "check_words rest rws (i + 1) (ms @ [?pr], miss) = (ms', miss')"
      by (simp add: Let_def)
    moreover from pr Cons.prems(2) have "\<forall>m\<in>set (ms @ [?pr]). mistake_ok (length rws) m"
      by (simp add: mistake_ok_def)
    ultimately show ?thesis by (rule Cons.IH)
  next
    case ok
    with Cons.prems(1) have "check_words rest rws (i + 1) (ms, miss) = (ms', miss')"
      by (simp add: Let_def)
    then show ?thesis using Cons.prems(2) by (rule Cons.IH)
  qed
qed

lemma check_words_counts:
  assumes "check_words ews rws i (ms, miss) = (ms', miss')"
    and "length miss + length (filter (\<lambda>m. mistake_type m = pronunciation) ms) \<le> i"
  shows "length miss' + length (filter (\<lambda>m. mistake_type m = pronunciation) ms')
           \<le> i + length ews"
  using assms
proof (induction ews arbitrary: i ms miss)
  case Nil
  then show ?case by simp
next
  case (Cons ew rest)
  let ?om = "\<lparr>mistake_type = omission, expected = Some ew, recited = None,
              position = i, severity = high\<rparr>"
  let ?sim = "calculateSimilarity ew (rws ! i)"
  let ?pr = "\<lparr>mistake_type = pronunciation, expected = Some ew, recited = Some (rws ! i),
              position = i, severity = (if ?sim < 3 / 10 then high else medium)\<rparr>"
  let ?count = "\<lambda>xs. length (filter (\<lambda>m. mistake_type m = pronunciation) xs)"
  consider (om) "length rws \<le> i"
    | (pr) "i < length rws" "?sim < 7 / 10"
    | (ok) "i < length rws" "\<not> ?sim < 7 / 10"
    by linarith
  then have "length miss' + ?count ms' \<le> (i + 1) + length rest"
  proof cases
    case om
    with Cons.prems(1) have "check_words rest rws (i + 1) (ms @ [?om], miss @ [ew]) = (ms', miss')"
      by simp
    moreover from Cons.prems(2) have "length (miss @ [ew]) + ?count (ms @ [?om]) \<le> i + 1"
      by simp
    ultimately show ?thesis by (rule Cons.IH)
  next
    case pr
    with Cons.prems(1) have "check_words rest rws (i + 1) (ms @ [?pr], miss) = (ms', miss')"
      by (simp add: Let_def)
    moreover from Cons.prems(2) have "length miss + ?count (ms @ [?pr]) \<le> i + 1"
      by simp
    ultimately show ?thesis by (rule Cons.IH)
  next
    case ok
    with Cons.prems(1) have "check_words rest rws (i + 1) (ms, miss) = (ms', miss')"
      by (simp add: Let_def)
    moreover from Cons.prems(2) have "length miss + ?count ms \<le> i + 1"
      by simp
    ultimately show ?thesis by (rule Cons.IH)
  qed
  then show ?case by simp
qed


lemma validateRecitation_present:
  assumes "getVerse verses s v = Some verse"
    and "check_words (words verse) (tokenize txt) 0 ([], []) = (ms, miss)"
  shows "mistakes (validateRecitation verses s v txt) =
           (if length (tokenize txt) > length (words verse)
            then ms @ [addition_mistake (length (words verse))] else ms)"
    and "missingWords (validateRecitation verses s v txt) = miss"
    and "extraWords (validateRecitation verses s v txt) =
           (if length (tokenize txt) > length (words verse)
            then drop (length (words verse)) (tokenize txt) else [])"
    and "accuracy (validateRecitation verses s v txt) =
           js_mul (js_div (of_int (correctWords (words verse) miss
                     (mistakes (validateRecitation verses s v txt))))
                   (of_nat (length (words verse)))) 100"
    and "isValid (validateRecitation verses s v txt) =
           js_ge (accuracy (validateRecitation verses s v txt)) 70"
  using assms by (simp_all add: validateRecitation_def Let_def addition_mistake_def)

lemma check_words_total:
  "\<exists>ms miss. check_words ews rws i acc = (ms, miss)"
  by (cases "check_words ews rws i acc") simp

text \<open>
  C7.  For a verse reference that is absent from the corpus, whatever the recited text,
  \<open>validateRecitation\<close> returns the result with \<open>isValid = false\<close>, accuracy 0 and empty
  \<open>mistakes\<close>, \<open>missingWords\<close> and \<open>extraWords\<close>; the function is total, so nothing is
  raised.
\<close>

theorem validateRecitation_absent:
  assumes "getVerse verses surahNumber verseNumber = None"
  shows "validateRecitation verses surahNumber verseNumber recitedText =
           \<lparr>isValid = False, accuracy = Fin 0, mistakes = [], missingWords = [],
            extraWords = []\<rparr>"
  using assms by (simp add: validateRecitation_def)

text \<open>
  C8.  For a verse of the corpus and a recited text with more words than the verse,
  \<open>extraWords\<close> is exactly the surplus trailing recited words, and \<open>mistakes\<close> holds exactly
  one mistake of type addition: it comes last, has the number of canonical words as its
  position and severity medium.  The surplus words add no further mistakes: there are at
  most as many other mistakes as canonical words.
\<close>

theorem validateRecitation_extra:
  assumes "getVerse verses surahNumber verseNumber = Some verse"
    and "length (tokenize recitedText) > length (words verse)"
  shows "extraWords (validateRecitation verses surahNumber verseNumber recitedText)
           = drop (length (words verse)) (tokenize recitedText)
       \<and> filter (\<lambda>m. mistake_type m = addition)
            (mistakes (validateRecitation verses surahNumber verseNumber recitedText))
           = [\<lparr>mistake_type = addition, expected = None, recited = None,
               position = length (words verse), severity = medium\<rparr>]
       \<and> last (mistakes (validateRecitation verses surahNumber verseNumber recitedText))
           = \<lparr>mistake_type = addition, expected = None, recited = None,
               position = length (words verse), severity = medium\<rparr>
       \<and> length (mistakes (validateRecitation verses surahNumber verseNumber recitedText))
           \<le> length (words verse) + 1"
proof -
  let ?res = "validateRecitation verses surahNumber verseNumber recitedText"
  let ?rws = "tokenize recitedText"
  obtain ms miss where cw: "check_words (words verse) ?rws 0 ([], []) = (ms, miss)"
    using check_words_total by blast
  have m: "mistakes ?res = ms @ [addition_mistake (length (words verse))]"
    using validateRecitation_present(1) [OF assms(1) cw] assms(2) by simp
  have e: "extraWords ?res = drop (length (words verse)) ?rws"
    using validateRecitation_present(3) [OF assms(1) cw] assms(2) by simp
  have "\<forall>x\<in>set ms. mistake_ok (length ?rws) x"
    using check_words_kinds [OF cw] by simp
  then have "\<forall>x\<in>set ms. mistake_type x \<noteq> addition"
    by (auto simp add: mistake_ok_def)
  then have f: "filter (\<lambda>m. mistake_type m = addition) ms = []"
    by (simp add: filter_empty_conv)
  have "sorted_wrt (<) (map position ms) \<and> (\<forall>x\<in>set ms. position x < 0 + length (words verse))"
    using check_words_positions [OF cw] by simp
  then have d: "distinct (map position ms)"
    and b: "position ` set ms \<subseteq> {..<length (words verse)}"
    by (auto simp add: strict_sorted_iff)
  from d have "length ms = card (position ` set ms)"
    using distinct_card [of "map position ms"] by simp
  also from b have "\<dots> \<le> card {..<length (words verse)}"
    by (intro card_mono) simp_all
  finally have l: "length ms \<le> length (words verse)" by simp
  from m e f l show ?thesis by (simp add: addition_mistake_def)
qed

text \<open>
  C10.  For a verse of the corpus, the positions of the reported mistakes are strictly
  increasing, hence no two mistakes share a position; a mistake of type addition has the
  number of canonical words as its position and is the last one, and every other mistake
  has a position below that number.
\<close>

theorem validateRecitation_positions_increasing:
  assumes "getVerse verses surahNumber verseNumber = Some verse"
  shows "sorted_wrt (<)
           (map position (mistakes (validateRecitation verses surahNumber verseNumber recitedText)))
       \<and> distinct
           (map position (mistakes (validateRecitation verses surahNumber verseNumber recitedText)))
       \<and> (\<forall>m\<in>set (mistakes (validateRecitation verses surahNumber verseNumber recitedText)).
             (mistake_type m = addition \<longrightarrow>
                position m = length (words verse)
                \<and> m = last (mistakes (validateRecitation verses surahNumber verseNumber recitedText)))
           \<and> (mistake_type m \<noteq> addition \<longrightarrow> position m < length (words verse)))"
proof -
  let ?res = "validateRecitation verses surahNumber verseNumber recitedText"
  let ?rws = "tokenize recitedText"
  let ?n = "length (words verse)"
  obtain ms miss where cw: "check_words (words verse) ?rws 0 ([], []) = (ms, miss)"
    using check_words_total by blast
  have m: "mistakes ?res = (if length ?rws > ?n then ms @ [addition_mistake ?n] else ms)"
    using validateRecitation_present(1) [OF assms(1) cw] by simp
  have "\<forall>x\<in>set ms. mistake_ok (length ?rws) x"
    using check_words_kinds [OF cw] by simp
  then have k: "\<forall>x\<in>set ms. mistake_type x \<noteq> addition"
    by (auto simp add: mistake_ok_def)
  have p: "sorted_wrt (<) (map position ms)" "\<forall>x\<in>set ms. position x < ?n"
    using check_words_positions [OF cw] by simp_all
  have s: "sorted_wrt (<) (map position (mistakes ?res))"
    using p by (simp add: m sorted_wrt_append addition_mistake_def)
  then have d: "distinct (map position (mistakes ?res))"
    by (simp add: strict_sorted_iff)
  have a: "\<forall>m\<in>set (mistakes ?res).
             (mistake_type m = addition \<longrightarrow> position m = ?n \<and> m = last (mistakes ?res))
           \<and> (mistake_type m \<noteq> addition \<longrightarrow> position m < ?n)"
    using k p(2) by (auto simp add: m addition_mistake_def)
  from s d a show ?thesis by blast
qed

lemma percent_range:
  assumes "0 \<le> c" and "c \<le> int n" and "0 < n"
  shows "0 \<le> (of_int c :: rat) / of_nat n * 100 \<and> (of_int c :: rat) / of_nat n * 100 \<le> 100"
proof -
  define q :: rat where "q = of_int c / of_nat n"
  have "(of_int c :: rat) \<le> of_nat n"
    using assms(2) by (metis of_int_le_iff of_int_of_nat_eq)
  then have q1: "q \<le> 1" using assms(3) by (simp add: q_def divide_le_eq_1)
  have q0: "0 \<le> q" using assms(1) by (simp add: q_def)
  from q0 have "0 \<le> q * 100" by (rule mult_nonneg_nonneg) simp
  moreover from q1 have "q * 100 \<le> 1 * 100" by (rule mult_right_mono) simp
  ultimately show ?thesis by (simp add: q_def)
qed

text \<open>
  C3.  For a verse of the corpus with at least one canonical word, the accuracy is a finite
  number between 0 and 100, namely 100 times \<open>correctWords\<close> over the number of canonical
  words, and \<open>correctWords\<close> is not negative: omissions are reported only at positions at
  or beyond the number of recited words, mispronunciations only below it, and the missing
  words and the mispronunciations together are at most as many as the canonical words.
\<close>

theorem validateRecitation_accuracy_range:
  assumes "getVerse verses surahNumber verseNumber = Some verse"
    and "words verse \<noteq> []"
  shows "(\<exists>r. accuracy (validateRecitation verses surahNumber verseNumber recitedText) = Fin r
            \<and> 0 \<le> r \<and> r \<le> 100)
       \<and> 0 \<le> correctWords (words verse)
                (missingWords (validateRecitation verses surahNumber verseNumber recitedText))
                (mistakes (validateRecitation verses surahNumber verseNumber recitedText))
       \<and> accuracy (validateRecitation verses surahNumber verseNumber recitedText) =
           Fin (of_int (correctWords (words verse)
                  (missingWords (validateRecitation verses surahNumber verseNumber recitedText))
                  (mistakes (validateRecitation verses surahNumber verseNumber recitedText)))
                / of_nat (length (words verse)) * 100)
       \<and> (\<forall>m\<in>set (mistakes (validateRecitation verses surahNumber verseNumber recitedText)).
             (mistake_type m = omission \<longrightarrow> length (tokenize recitedText) \<le> position m)
           \<and> (mistake_type m = pronunciation \<longrightarrow> position m < length (tokenize recitedText)))
       \<and> length (missingWords (validateRecitation verses surahNumber verseNumber recitedText))
           + length (filter (\<lambda>m. mistake_type m = pronunciation)
               (mistakes (validateRecitation verses surahNumber verseNumber recitedText)))
           \<le> length (words verse)"
proof -
  let ?res = "validateRecitation verses surahNumber verseNumber recitedText"
  let ?rws = "tokenize recitedText"
  let ?n = "length (words verse)"
  let ?c = "correctWords (words verse) (missingWords ?res) (mistakes ?res)"
  obtain ms miss where cw: "check_words (words verse) ?rws 0 ([], []) = (ms, miss)"
    using check_words_total by blast
  have m: "mistakes ?res = (if length ?rws > ?n then ms @ [addition_mistake ?n] else ms)"
    using validateRecitation_present(1) [OF assms(1) cw] by simp
  have mw: "missingWords ?res = miss"
    using validateRecitation_present(2) [OF assms(1) cw] by simp
  have n: "0 < ?n" using assms(2) by simp
  have acc: "accuracy ?res = Fin (of_int ?c / of_nat ?n * 100)"
    using validateRecitation_present(4) [OF assms(1) cw] n by (simp add: mw js_div.simps)
  have "length miss + length (filter (\<lambda>m. mistake_type m = pronunciation) ms) \<le> 0 + ?n"
    using check_words_counts [OF cw] by simp
  then have cnt: "length (missingWords ?res)
                    + length (filter (\<lambda>m. mistake_type m = pronunciation) (mistakes ?res)) \<le> ?n"
    by (simp add: m mw addition_mistake_def)
  then have c0: "0 \<le> ?c" and c1: "?c \<le> int ?n"
    by (simp_all add: correctWords_def)
  have r: "0 \<le> (of_int ?c :: rat) / of_nat ?n * 100 \<and> (of_int ?c :: rat) / of_nat ?n * 100 \<le> 100"
    using c0 c1 n by (rule percent_range)
  then have r0: "0 \<le> (of_int ?c :: rat) / of_nat ?n * 100"
    and r1: "(of_int ?c :: rat) / of_nat ?n * 100 \<le> 100"
    by blast+
  have "\<forall>x\<in>set ms. mistake_ok (length ?rws) x"
    using check_words_kinds [OF cw] by simp
  then have k: "\<forall>m\<in>set (mistakes ?res).
             (mistake_type m = omission \<longrightarrow> length ?rws \<le> position m)
           \<and> (mistake_type m = pronunciation \<longrightarrow> position m < length ?rws)"
    by (auto simp add: m mistake_ok_def addition_mistake_def split: MistakeType.splits)
  from acc r0 r1 c0 k cnt show ?thesis by blast
qed


text \<open>Evaluation at the sample corpus.\<close>

lemma verse_key_1_3: "verse_key 1 3 = [0x31, 0x3A, 0x33]"
  by (simp add: verse_key_def number_to_string_def digits_of.simps)

lemma verse_key_2_1: "verse_key 2 1 = [0x32, 0x3A, 0x31]"
  by (simp add: verse_key_def number_to_string_def digits_of.simps)

lemma getVerse_1_3: "getVerse corpus_1_3 1 3 = Some verse_1_3"
  by (simp add: getVerse_def corpus_1_3_def)

lemma getVerse_2_1: "getVerse corpus_1_3 2 1 = None"
  by (simp add: getVerse_def corpus_1_3_def verse_key_1_3 verse_key_2_1)

lemma words_1_3: "words verse_1_3 =
        [[0x627, 0x644, 0x631, 0x64E, 0x651, 0x62D, 0x652, 0x645, 0x64E, 0x670, 0x646, 0x650],
         [0x627, 0x644, 0x631, 0x64E, 0x651, 0x62D, 0x650, 0x64A, 0x645, 0x650]]"
  by (simp add: verse_1_3_def)

lemma tokenize_one: "tokenize [0x627, 0x644, 0x631, 0x62D, 0x645, 0x646] = [[0x627, 0x644, 0x631, 0x62D, 0x645, 0x646]]"
  by (simp add: tokenize_def split_spaces.simps is_space_def)

lemma tokenize_a: "tokenize [0x61] = [[0x61]]"
  by (simp add: tokenize_def split_spaces.simps is_space_def)

lemma tokenize_abc: "tokenize [0x61, 0x20, 0x20, 0x62, 0xA, 0x63, 0x20] = [[0x61], [0x62], [0x63]]"
  by (simp add: tokenize_def split_spaces.simps is_space_def)

theorem validateRecitation_absent_witness:
  "getVerse corpus_1_3 2 1 = None
   \<and> validateRecitation corpus_1_3 2 1 [0x61, 0x20, 0x20, 0x62, 0xA, 0x63, 0x20] =
       \<lparr>isValid = False, accuracy = Fin 0, mistakes = [], missingWords = [], extraWords = []\<rparr>"
  using validateRecitation_absent [of corpus_1_3 2 1 "[0x61, 0x20, 0x20, 0x62, 0xA, 0x63, 0x20]"]
  by (simp add: getVerse_2_1)

lemma sim_1: "calculateSimilarity [0x627, 0x644, 0x631, 0x64E, 0x651, 0x62D, 0x652, 0x645, 0x64E, 0x670, 0x646, 0x650] [0x627, 0x644, 0x631, 0x62D, 0x645, 0x646] = 9 / 10"
  by (simp add: calculateSimilarity_def removeDiacritics_filter diacritics_def)

lemma sim_2: "calculateSimilarity [0x627, 0x644, 0x631, 0x64E, 0x651, 0x62D, 0x652, 0x645, 0x64E, 0x670, 0x646, 0x650] [0x61] = 0"
  by (simp add: calculateSimilarity_def removeDiacritics_filter diacritics_def count_matches.simps)

lemma sim_3: "calculateSimilarity [0x627, 0x644, 0x631, 0x64E, 0x651, 0x62D, 0x650, 0x64A, 0x645, 0x650] [0x62] = 0"
  by (simp add: calculateSimilarity_def removeDiacritics_filter diacritics_def count_matches.simps)

theorem validateRecitation_accuracy_range_witness:
  "getVerse corpus_1_3 1 3 = Some verse_1_3 \<and> words verse_1_3 \<noteq> []
   \<and> accuracy (validateRecitation corpus_1_3 1 3 [0x627, 0x644, 0x631, 0x62D, 0x645, 0x646])
       = Fin 50
   \<and> correctWords (words verse_1_3)
        (missingWords (validateRecitation corpus_1_3 1 3 [0x627, 0x644, 0x631, 0x62D, 0x645, 0x646]))
        (mistakes (validateRecitation corpus_1_3 1 3 [0x627, 0x644, 0x631, 0x62D, 0x645, 0x646]))
       = 1
   \<and> accuracy (validateRecitation corpus_1_3 1 3 [0x61]) = Fin 0
   \<and> map mistake_type (mistakes (validateRecitation corpus_1_3 1 3 [0x61]))
       = [pronunciation, omission]"
  using validateRecitation_accuracy_range
    [of corpus_1_3 1 3 verse_1_3 "[0x627, 0x644, 0x631, 0x62D, 0x645, 0x646]"]
    validateRecitation_accuracy_range [of corpus_1_3 1 3 verse_1_3 "[0x61]"]
  by (simp add: validateRecitation_def getVerse_1_3 words_1_3 tokenize_one tokenize_a sim_1
      sim_2 correctWords_def js_div.simps Let_def)

theorem validateRecitation_extra_witness:
  "getVerse corpus_1_3 1 3 = Some verse_1_3
   \<and> length (tokenize [0x61, 0x20, 0x20, 0x62, 0xA, 0x63, 0x20]) > length (words verse_1_3)
   \<and> extraWords (validateRecitation corpus_1_3 1 3 [0x61, 0x20, 0x20, 0x62, 0xA, 0x63, 0x20])
       = [[0x63]]
   \<and> length (mistakes (validateRecitation corpus_1_3 1 3 [0x61, 0x20, 0x20, 0x62, 0xA, 0x63, 0x20]))
       = 3"
  using validateRecitation_extra
    [of corpus_1_3 1 3 verse_1_3 "[0x61, 0x20, 0x20, 0x62, 0xA, 0x63, 0x20]"]
  by (simp add: validateRecitation_def getVerse_1_3 words_1_3 tokenize_abc sim_2 sim_3 Let_def)

theorem validateRecitation_positions_increasing_witness:
  "getVerse corpus_1_3 1 3 = Some verse_1_3
   \<and> map position
        (mistakes (validateRecitation corpus_1_3 1 3 [0x61, 0x20, 0x20, 0x62, 0xA, 0x63, 0x20]))
       = [0, 1, 2]
   \<and> map mistake_type
        (mistakes (validateRecitation corpus_1_3 1 3 [0x61, 0x20, 0x20, 0x62, 0xA, 0x63, 0x20]))
       = [pronunciation, pronunciation, addition]"
  using validateRecitation_positions_increasing
    [of corpus_1_3 1 3 verse_1_3 "[0x61, 0x20, 0x20, 0x62, 0xA, 0x63, 0x20]"]
  by (simp add: validateRecitation_def getVerse_1_3 words_1_3 tokenize_abc sim_2 sim_3 Let_def)

section \<open>Properties of the session history\<close>

text \<open>
  C6.  When \<open>endSession\<close> closes the current session, the new history has at most 50
  entries and is the closed session followed by the first 49 entries of the old history, in
  their order: the closed session is prepended, a history of fewer than 50 entries loses
  nothing, and a history of 50 entries loses exactly its last, oldest, entry.
\<close>

theorem endSession_history:
  assumes "currentSession st = Some cs"
  shows "length (sessionHistory (endSession newDate dateNow st)) \<le> 50
       \<and> sessionHistory (endSession newDate dateNow st)
           = endedSession newDate dateNow cs # take 49 (sessionHistory st)
       \<and> (length (sessionHistory st) < 50 \<longrightarrow>
            sessionHistory (endSession newDate dateNow st)
              = endedSession newDate dateNow cs # sessionHistory st)
       \<and> (length (sessionHistory st) = 50 \<longrightarrow>
            sessionHistory (endSession newDate dateNow st)
              = endedSession newDate dateNow cs # butlast (sessionHistory st))
       \<and> endTime (endedSession newDate dateNow cs) = Some newDate
       \<and> currentSession (endSession newDate dateNow st) = None"
proof -
  have h: "sessionHistory (endSession newDate dateNow st)
             = endedSession newDate dateNow cs # take 49 (sessionHistory st)"
    using assms by (simp add: endSession_def Let_def take_Cons')
  have l: "length (sessionHistory (endSession newDate dateNow st)) \<le> 50"
    unfolding h by simp
  have a: "length (sessionHistory st) < 50 \<longrightarrow> take 49 (sessionHistory st) = sessionHistory st"
    by simp
  have b: "length (sessionHistory st) = 50 \<longrightarrow> take 49 (sessionHistory st) = butlast (sessionHistory st)"
    by (simp add: butlast_conv_take)
  have e: "endTime (endedSession newDate dateNow cs) = Some newDate"
    by (simp add: endedSession_def)
  have c: "currentSession (endSession newDate dateNow st) = None"
    using assms by (simp add: endSession_def Let_def)
  from h l a b e c show ?thesis by simp
qed

text \<open>A full history of fifty sessions, and an empty one.\<close>

theorem endSession_history_witness:
  "currentSession \<lparr>currentSession = Some (newSession 7 7),
       sessionHistory = replicate 49 (newSession 5 5) @ [newSession 1 1]\<rparr>
     = Some (newSession 7 7)
   \<and> length (replicate 49 (newSession 5 5) @ [newSession 1 1]) = 50
   \<and> sessionHistory (endSession 9 9
        \<lparr>currentSession = Some (newSession 7 7),
         sessionHistory = replicate 49 (newSession 5 5) @ [newSession 1 1]\<rparr>)
     = endedSession 9 9 (newSession 7 7) # replicate 49 (newSession 5 5)
   \<and> sessionHistory (endSession 9 9
        \<lparr>currentSession = Some (newSession 7 7), sessionHistory = []\<rparr>)
     = [endedSession 9 9 (newSession 7 7)]"
  using endSession_history [of "\<lparr>currentSession = Some (newSession 7 7),
       sessionHistory = replicate 49 (newSession 5 5) @ [newSession 1 1]\<rparr>" "newSession 7 7" 9 9]
    endSession_history [of "\<lparr>currentSession = Some (newSession 7 7),
       sessionHistory = []\<rparr>" "newSession 7 7" 9 9]
  by simp

section \<open>Properties of the statistics\<close>

lemma floor_rat_divide_numeral:
  "\<lfloor>numeral a / numeral b :: rat\<rfloor> = numeral a div numeral b"
  by (metis floor_divide_of_int_eq of_int_numeral)

lemma sums_exact_foldl:
  "sums_exact s rs \<Longrightarrow> foldl double_add (Fin s) (map Fin rs) = Fin (s + sum_list rs)"
  by (induction rs arbitrary: s) (simp_all add: add.assoc)

lemma getFilteredSessions_all_time:
  "getFilteredSessions now all_time history = history"
  by (simp add: getFilteredSessions_def)

text \<open>
  C4 (as amended).  The \<open>averageAccuracy\<close> that \<open>getStats\<close> returns is \<open>Math.round\<close>
  of the unweighted mean of the \<open>averageAccuracy\<close> fields of the filtered sessions as
  double arithmetic computes it (the accuracies added from 0, left to right, each sum
  rounded to a double, the last sum divided by the number of sessions and rounded), and 0
  when no session passes the filter.  When every partial sum and the quotient are doubles,
  it is the exact mean rounded to the nearest integer, halves up.
\<close>

theorem getStats_averageAccuracy:
  "stats_averageAccuracy (getStats LocalTZA now today selectedPeriod history)
     = (if getFilteredSessions now selectedPeriod history = [] then Fin 0
        else math_round (double_mean
               (map averageAccuracy (getFilteredSessions now selectedPeriod history))))
   \<and> (map averageAccuracy (getFilteredSessions now selectedPeriod history) = map Fin rs
        \<and> rs \<noteq> [] \<and> sums_exact 0 rs \<and> round_double (mean rs) = Fin (mean rs)
      \<longrightarrow> stats_averageAccuracy (getStats LocalTZA now today selectedPeriod history)
            = Fin (of_int \<lfloor>mean rs + 1 / 2\<rfloor>))"
proof -
  let ?sessions = "getFilteredSessions now selectedPeriod history"
  let ?stat = "stats_averageAccuracy (getStats LocalTZA now today selectedPeriod history)"
  have general: "?stat = (if ?sessions = [] then Fin 0
                          else math_round (double_mean (map averageAccuracy ?sessions)))"
    by (simp add: getStats_def Let_def double_mean_def foldl_map)
  have exact: "?stat = Fin (of_int \<lfloor>mean rs + 1 / 2\<rfloor>)"
    if accs: "map averageAccuracy ?sessions = map Fin rs" and ne: "rs \<noteq> []"
      and sums: "sums_exact 0 rs" and quot: "round_double (mean rs) = Fin (mean rs)"
  proof -
    from accs ne have "?sessions \<noteq> []" by auto
    moreover have "length rs = length ?sessions"
      using accs by (metis length_map)
    moreover have "foldl double_add (Fin 0) (map Fin rs) = Fin (sum_list rs)"
      using sums_exact_foldl [OF sums] by simp
    ultimately have "?stat = math_round (double_div (Fin (sum_list rs)) (of_nat (length rs)))"
      using general accs by (simp add: double_mean_def)
    also have "double_div (Fin (sum_list rs)) (of_nat (length rs)) = round_double (mean rs)"
      using ne by (simp add: mean_def)
    finally show ?thesis using quot by simp
  qed
  from general exact show ?thesis by blast
qed

text \<open>Two sessions with accuracies 80 and 85: the mean is 82.5, the statistic is 83.\<close>

lemma round_double_80: "round_double 80 = Fin 80"
  by code_simp

lemma round_double_165: "round_double 165 = Fin 165"
  by code_simp

lemma round_double_165_2: "round_double (165 / 2) = Fin (165 / 2)"
  by code_simp

theorem getStats_averageAccuracy_witness:
  "map averageAccuracy (getFilteredSessions 0 all_time
      [(newSession 0 0)\<lparr>averageAccuracy := Fin 80\<rparr>,
       (newSession 0 0)\<lparr>averageAccuracy := Fin 85\<rparr>]) = map Fin [80, 85]
   \<and> sums_exact 0 [80, 85] \<and> round_double (mean [80, 85]) = Fin (mean [80, 85])
   \<and> stats_averageAccuracy (getStats (\<lambda>t b. 0) 0 0 all_time
      [(newSession 0 0)\<lparr>averageAccuracy := Fin 80\<rparr>,
       (newSession 0 0)\<lparr>averageAccuracy := Fin 85\<rparr>]) = Fin 83"
  using getStats_averageAccuracy [of "\<lambda>t b. 0" 0 0 all_time
      "[(newSession 0 0)\<lparr>averageAccuracy := Fin 80\<rparr>,
        (newSession 0 0)\<lparr>averageAccuracy := Fin 85\<rparr>]" "[80, 85]"]
  by (simp add: getFilteredSessions_all_time mean_def double_mean_def newSession_def
      round_double_80 round_double_165 round_double_165_2)

theorem getStats_averageAccuracy_counterexample:
  "stats_averageAccuracy (getStats (\<lambda>t b. 0) 0 0 all_time
      [(newSession 0 0)\<lparr>averageAccuracy := Fin 80\<rparr>,
       (newSession 0 0)\<lparr>averageAccuracy := Fin 85\<rparr>])
   \<noteq> Fin (mean [80, 85])"
  by (simp add: getStats_def getFilteredSessions_all_time mean_def newSession_def Let_def
      round_double_80 round_double_165 round_double_165_2)

text \<open>
  Two sessions with the accuracies 58.333333333333336 and 66.66666666666666, the doubles
  that \<open>(7 / 12) * 100\<close> and \<open>(2 / 3) * 100\<close> evaluate to: their sum rounds to 125, and
  the statistic is 63, while the exact mean of the two doubles rounds to 62.
\<close>

lemma round_double_a: "round_double (8209686820727467 / 140737488355328) = Fin (8209686820727467 / 140737488355328)"
  by code_simp

lemma round_double_ab: "round_double (8209686820727467 / 140737488355328 + 2345624805922133 / 35184372088832) = Fin 125"
  by code_simp

lemma round_double_125_2: "round_double (125 / 2) = Fin (125 / 2)"
  by code_simp

lemma getStats_averageAccuracy_inexact:
  "stats_averageAccuracy (getStats (\<lambda>t b. 0) 0 0 all_time
      [(newSession 0 0)\<lparr>averageAccuracy := Fin (8209686820727467 / 140737488355328)\<rparr>,
       (newSession 0 0)\<lparr>averageAccuracy := Fin (2345624805922133 / 35184372088832)\<rparr>])
   = Fin 63
   \<and> \<lfloor>mean [8209686820727467 / 140737488355328, 2345624805922133 / 35184372088832] + 1 / 2\<rfloor>
     = 62"
  using round_double_a round_double_ab round_double_125_2
  by (simp add: getStats_def getFilteredSessions_all_time mean_def newSession_def Let_def
      floor_rat_divide_numeral)

text \<open>
  In a time zone with a fixed offset every calendar day starts at a local midnight, and the
  loop counts the unbroken run of calendar days ending today on which some (filtered)
  session started: each of the \<open>streakDays\<close> days counted back from today has a
  session, and the day before them has none.
\<close>

lemma session_days_Cons:
  "session_days tz (s # xs) = insert (local_day tz (startTime s)) (session_days tz xs)"
  by (simp add: session_days_def)

lemma setHours0_fixed:
  assumes "\<forall>t b. tz t b = c"
  shows "setHours0 tz t = local_day tz t * msPerDay - c"
  using assms by (simp add: setHours0_def UTC_def local_day_def)

lemma setDatePrev_fixed:
  assumes "\<forall>t b. tz t b = c"
  shows "setDatePrev tz (d * msPerDay - c) = (d - 1) * msPerDay - c"
  using assms by (simp add: setDatePrev_def UTC_def LocalTime_def algebra_simps)

lemma midnight_eq_iff: "a * msPerDay - c = b * msPerDay - c \<longleftrightarrow> a = b"
  by (simp add: msPerDay_def)

lemma midnight_less_iff: "a * msPerDay - c < b * msPerDay - c \<longleftrightarrow> a < b"
  by (simp add: msPerDay_def)

lemma streak_loop_fixed:
  assumes tz: "\<forall>t b. tz t b = c"
    and "sorted_wrt (\<lambda>a b. local_day tz (startTime b) \<le> local_day tz (startTime a)) xs"
  shows "k \<le> streak_loop tz xs k (d * msPerDay - c)
       \<and> (\<forall>j < streak_loop tz xs k (d * msPerDay - c) - k. d - int j \<in> session_days tz xs)
       \<and> d - int (streak_loop tz xs k (d * msPerDay - c) - k) \<notin> session_days tz xs"
  using assms(2)
proof (induction xs arbitrary: k d)
  case Nil
  then show ?case by (simp add: session_days_def)
next
  case (Cons s rest)
  let ?d = "local_day tz (startTime s)"
  have sd: "setHours0 tz (startTime s) = ?d * msPerDay - c"
    using tz by (rule setHours0_fixed)
  from Cons.prems have later: "\<forall>x\<in>set rest. local_day tz (startTime x) \<le> ?d"
    and sorted_rest:
      "sorted_wrt (\<lambda>a b. local_day tz (startTime b) \<le> local_day tz (startTime a)) rest"
    by simp_all
  from later have below: "\<forall>y\<in>session_days tz rest. y \<le> ?d"
    by (auto simp add: session_days_def)
  consider (hit) "?d = d" | (gap) "?d < d" | (skip) "d < ?d"
    by linarith
  then show ?case
  proof cases
    case hit
    let ?r = "streak_loop tz rest (k + 1) ((d - 1) * msPerDay - c)"
    have r: "streak_loop tz (s # rest) k (d * msPerDay - c) = ?r"
      using hit by (simp add: Let_def sd setDatePrev_fixed [OF tz])
    from Cons.IH [OF sorted_rest, of "k + 1" "d - 1"]
    have ih1: "k + 1 \<le> ?r"
      and ih2: "\<forall>j < ?r - (k + 1). d - 1 - int j \<in> session_days tz rest"
      and ih3: "d - 1 - int (?r - (k + 1)) \<notin> session_days tz rest"
      by blast+
    have g2: "d - int j \<in> session_days tz (s # rest)" if "j < ?r - k" for j
    proof (cases j)
      case 0
      with hit show ?thesis by (simp add: session_days_Cons)
    next
      case (Suc i)
      with that have "i < ?r - (k + 1)" by simp
      with ih2 have "d - 1 - int i \<in> session_days tz rest" by blast
      with Suc show ?thesis by (simp add: session_days_Cons algebra_simps)
    qed
    have eq: "d - int (?r - k) = d - 1 - int (?r - (k + 1))"
      using ih1 by (simp add: of_nat_diff)
    have ne: "d - int (?r - k) \<noteq> ?d"
      using ih1 hit by simp
    have "d - int (?r - k) \<notin> session_days tz rest"
      unfolding eq by (rule ih3)
    with ne have g3: "d - int (?r - k) \<notin> session_days tz (s # rest)"
      by (simp only: session_days_Cons insert_iff) blast
    from ih1 g2 g3 show ?thesis unfolding r by simp
  next
    case gap
    have r: "streak_loop tz (s # rest) k (d * msPerDay - c) = k"
      using gap by (simp add: Let_def sd midnight_eq_iff midnight_less_iff)
    have "d \<notin> session_days tz (s # rest)"
      using gap below by (auto simp add: session_days_Cons)
    then show ?thesis unfolding r by simp
  next
    case skip
    let ?r = "streak_loop tz rest k (d * msPerDay - c)"
    have r: "streak_loop tz (s # rest) k (d * msPerDay - c) = ?r"
      using skip by (simp add: Let_def sd midnight_eq_iff midnight_less_iff)
    from Cons.IH [OF sorted_rest, of k d]
    have ih1: "k \<le> ?r"
      and ih2: "\<forall>j < ?r - k. d - int j \<in> session_days tz rest"
      and ih3: "d - int (?r - k) \<notin> session_days tz rest"
      by blast+
    have "d - int (?r - k) \<noteq> ?d"
      using skip by simp
    with ih3 have g3: "d - int (?r - k) \<notin> session_days tz (s # rest)"
      by (simp add: session_days_Cons)
    from ih1 ih2 g3 show ?thesis unfolding r by (simp add: session_days_Cons)
  qed
qed

lemma sortedSessions_descending:
  assumes "\<forall>t b. tz t b = c"
  shows "sorted_wrt (\<lambda>a b. local_day tz (startTime b) \<le> local_day tz (startTime a))
           (sortedSessions sessions)"
proof -
  have "sorted (map (\<lambda>s. - startTime s) (sortedSessions sessions))"
    unfolding sortedSessions_def by (rule sorted_sort_key)
  then have "sorted_wrt (\<lambda>a b. - startTime a \<le> - startTime b) (sortedSessions sessions)"
    by (simp add: sorted_wrt_map)
  then show ?thesis
  proof (rule sorted_wrt_mono_rel [rotated])
    fix a b :: BikeModeSession
    assume "- startTime a \<le> - startTime b"
    then have "startTime b + c \<le> startTime a + c" by simp
    then have "(startTime b + c) div msPerDay \<le> (startTime a + c) div msPerDay"
      by (rule zdiv_mono1) (simp add: msPerDay_def)
    with assms show "local_day tz (startTime b) \<le> local_day tz (startTime a)"
      by (simp add: local_day_def LocalTime_def)
  qed
qed

lemma session_days_sortedSessions:
  "session_days tz (sortedSessions sessions) = session_days tz sessions"
  by (simp add: session_days_def sortedSessions_def)

lemma getStats_streakDays_fixed_offset:
  assumes "\<forall>t b. tz t b = c"
  shows "(\<forall>j < streakDays (getStats tz now today selectedPeriod history).
            local_day tz today - int j
              \<in> session_days tz (getFilteredSessions now selectedPeriod history))
       \<and> local_day tz today - int (streakDays (getStats tz now today selectedPeriod history))
           \<notin> session_days tz (getFilteredSessions now selectedPeriod history)"
proof (cases "getFilteredSessions now selectedPeriod history = []")
  case True
  then show ?thesis by (simp add: getStats_def session_days_def)
next
  case False
  let ?sessions = "getFilteredSessions now selectedPeriod history"
  have k: "streakDays (getStats tz now today selectedPeriod history)
             = streak_loop tz (sortedSessions ?sessions) 0
                 (local_day tz today * msPerDay - c)"
    using False by (simp add: getStats_def Let_def setHours0_fixed [OF assms])
  have sd: "sorted_wrt (\<lambda>a b. local_day tz (startTime b) \<le> local_day tz (startTime a))
              (sortedSessions ?sessions)"
    using assms by (rule sortedSessions_descending)
  show ?thesis
    using streak_loop_fixed [where k = 0 and d = "local_day tz today", OF assms sd]
    unfolding k session_days_sortedSessions by simp
qed

text \<open>
  C5.  The claim: \<open>streakDays\<close> counts the consecutive calendar days, walking back from
  today, on which some session started, so that sessions on three consecutive calendar
  days ending today give 3.  The code does so only where every calendar day has a local
  midnight.  In Africa/Cairo on 2024-04-26, a day that starts at 01:00, with sessions on
  the 26th, the 25th and the 24th of April (the calendar days 19839, 19838 and 19837),
  \<open>setHours(0, 0, 0, 0)\<close> puts \<open>currentDate\<close> at 01:00, \<open>setDate\<close> keeps 01:00 on the
  25th, the session of the 25th is compared at 00:00, and the loop stops: the streak is 1.
\<close>

theorem getStats_streakDays_cairo:
  "streakDays (getStats cairo_2024 1714122000000 1714122000000 all_time
      [newSession 1714114800000 1714114800000, newSession 1714032000000 1714032000000,
       newSession 1713945600000 1713945600000]) = 1
   \<and> local_day cairo_2024 1714122000000 = 19839
   \<and> map (local_day cairo_2024 \<circ> startTime)
        [newSession 1714114800000 1714114800000, newSession 1714032000000 1714032000000,
         newSession 1713945600000 1713945600000] = [19839, 19838, 19837]"
  by (simp add: getStats_def getFilteredSessions_all_time sortedSessions_def newSession_def
      setHours0_def setDatePrev_def UTC_def LocalTime_def local_day_def msPerDay_def
      cairo_2024_def Let_def)

text \<open>The same sessions and the same instant in UTC: the streak is 3.\<close>

lemma getStats_streakDays_utc:
  "streakDays (getStats (\<lambda>t b. 0) 1714122000000 1714122000000 all_time
      [newSession 1714114800000 1714114800000, newSession 1714032000000 1714032000000,
       newSession 1713945600000 1713945600000]) = 3"
  by (simp add: getStats_def getFilteredSessions_all_time sortedSessions_def newSession_def
      setHours0_def setDatePrev_def UTC_def LocalTime_def local_day_def msPerDay_def
      Let_def)

end
